theory Spec2Isabelle
  imports Complex_Main "HOL-Library.Multiset"
begin

section \<open>Data model\<close>

text \<open>
  A row of the play table \<open>self.df\<close>, with the columns the session code reads.
  Timestamps (\<open>endTime\<close>) are measured in seconds since the epoch and are valid
  timestamps (no \<open>NaT\<close>); \<open>minutes_played\<close> is the column computed at load time
  as \<open>msPlayed / 60000\<close>. Numbers are exact rationals, standing for the floats of
  the source.
\<close>

record event =
  endTime :: rat
  artistName :: string
  trackName :: string
  minutes_played :: rat

type_synonym session = "event list"

text \<open>
  The analyzer object: its table \<open>df\<close> and the attribute \<open>sessions\<close>, which
  exists only once \<open>detect_sessions\<close> has stored it (\<open>None\<close>: \<open>hasattr(self,
  'sessions')\<close> is false).
\<close>

record analyzer =
  df :: "event list"
  sessions :: "session list option"

datatype error = AttributeError string | IndexError | ValueError string

section \<open>Session detection\<close>

text \<open>\<open>Series.diff()\<close>: the first row has no predecessor (\<open>NaT\<close>, here \<open>None\<close>).\<close>

fun diff :: "rat list \<Rightarrow> rat option list" where
  "diff [] = []"
| "diff (t # ts) = None # map (\<lambda>(a, b). Some (b - a)) (zip (t # ts) ts)"

text \<open>\<open>time_diff.dt.total_seconds() / 60\<close>, missing values staying missing.\<close>

definition time_diff_minutes :: "rat option list \<Rightarrow> rat option list" where
  "time_diff_minutes time_diff = map (map_option (\<lambda>s. s / 60)) time_diff"

text \<open>\<open>time_diff_minutes.isna() | (time_diff_minutes > gap_threshold)\<close>.\<close>

definition new_session :: "rat \<Rightarrow> rat option list \<Rightarrow> bool list" where
  "new_session gap_threshold ms =
     map (\<lambda>m. case m of None \<Rightarrow> True | Some x \<Rightarrow> x > gap_threshold) ms"

text \<open>\<open>Series.cumsum()\<close> of a boolean column: the running number of \<open>True\<close>.\<close>

fun cumsum_from :: "int \<Rightarrow> bool list \<Rightarrow> int list" where
  "cumsum_from acc [] = []"
| "cumsum_from acc (b # bs) =
     (let acc' = acc + (if b then 1 else 0) in acc' # cumsum_from acc' bs)"

definition cumsum :: "bool list \<Rightarrow> int list" where
  "cumsum bs = cumsum_from 0 bs"

text \<open>
  \<open>[group for _, group in sorted_df.groupby('session_id')]\<close>: one group for each
  distinct key, the keys ascending, each group holding the rows with that key in the
  order of the table.
\<close>

definition get_group :: "int \<Rightarrow> (int \<times> 'a) list \<Rightarrow> 'a list" where
  "get_group k keyed = map snd (filter (\<lambda>p. fst p = k) keyed)"

definition groupby :: "int list \<Rightarrow> 'a list \<Rightarrow> 'a list list" where
  "groupby ids rows = map (\<lambda>k. get_group k (zip ids rows)) (sort (remdups ids))"

text \<open>
  \<open>detect_sessions\<close>. The argument \<open>sort_values\<close> stands for pandas'
  \<open>DataFrame.sort_values('endTime')\<close>, called with its default algorithm
  (\<open>kind='quicksort'\<close>), which orders the rows by ascending \<open>endTime\<close> and leaves the
  order among rows of equal \<open>endTime\<close> open. On an empty table the function returns
  before it stores \<open>self.sessions\<close>. (The table is never \<open>None\<close> once
  \<open>load_data\<close> has run.)
\<close>

type_synonym sort_fn = "event list \<Rightarrow> event list"

definition detect_sessions :: "sort_fn \<Rightarrow> rat \<Rightarrow> analyzer \<Rightarrow> session list \<times> analyzer" where
  "detect_sessions sort_values gap_threshold self =
     (if length (df self) = 0 then ([], self)
      else
        let sorted_df = sort_values (df self);
            time_diff = diff (map endTime sorted_df);
            minutes = time_diff_minutes time_diff;
            flags = new_session gap_threshold minutes;
            session_id = map (\<lambda>c. c - 1) (cumsum flags);
            groups = groupby session_id sorted_df
        in (groups, self\<lparr>sessions := Some groups\<rparr>))"

text \<open>
  The guard that opens \<open>session_statistics\<close>, \<open>session_patterns\<close> and
  \<open>session_content_analysis\<close>:
  \<^verbatim>\<open>if not hasattr(self, 'sessions') or not self.sessions: self.detect_sessions()\<close>,
  with the default \<open>gap_threshold=30\<close>. The value returned by the call is dropped;
  only its effect on the object remains.
\<close>

definition ensure_sessions :: "sort_fn \<Rightarrow> analyzer \<Rightarrow> analyzer" where
  "ensure_sessions sort_values self =
     (if sessions self = None \<or> sessions self = Some []
      then snd (detect_sessions sort_values 30 self)
      else self)"

section \<open>Session statistics\<close>

text \<open>\<open>pd.Timedelta(minutes=m)\<close> in seconds; \<open>total_seconds()\<close> is then the identity.\<close>

definition Timedelta_minutes :: "rat \<Rightarrow> rat" where
  "Timedelta_minutes m = m * 60"

text \<open>
  The body of the loop over \<open>self.sessions\<close> in \<open>session_statistics\<close>. A session
  with no row makes \<open>.iloc[0]\<close> raise.
\<close>

definition session_length :: "session \<Rightarrow> error + rat" where
  "session_length session =
     (if length session > 1 then
        (case session of
           [] \<Rightarrow> Inl IndexError
         | e # _ \<Rightarrow>
             let first_track_start =
                   Min (set (map endTime session)) - Timedelta_minutes (minutes_played e);
                 last_track_end = Max (set (map endTime session))
             in Inr ((last_track_end - first_track_start) / 60))
      else
        (case session of
           [] \<Rightarrow> Inl IndexError
         | e # _ \<Rightarrow> Inr (minutes_played e)))"

fun session_lengths :: "session list \<Rightarrow> error + rat list" where
  "session_lengths [] = Inr []"
| "session_lengths (s # ss) =
     (case session_length s of
        Inl err \<Rightarrow> Inl err
      | Inr l \<Rightarrow> (case session_lengths ss of Inl err \<Rightarrow> Inl err | Inr ls \<Rightarrow> Inr (l # ls)))"

text \<open>\<open>Series.nunique()\<close>: the number of distinct values.\<close>

definition nunique :: "'a list \<Rightarrow> nat" where
  "nunique xs = length (remdups xs)"

text \<open>\<open>np.mean\<close> and \<open>np.median\<close> on a list that is not empty.\<close>

definition mean :: "rat list \<Rightarrow> rat" where
  "mean xs = sum_list xs / of_nat (length xs)"

definition median :: "rat list \<Rightarrow> rat" where
  "median xs =
     (let ys = sort xs; n = length ys
      in if n mod 2 = 1 then ys ! (n div 2)
         else (ys ! (n div 2 - 1) + ys ! (n div 2)) / 2)"

text \<open>The histogram edges \<open>[0, 15, 30, 60, 120, 240, float('inf')]\<close> and their printing.\<close>

datatype edge = Fin nat | Inf

function str_nat :: "nat \<Rightarrow> string" where
  "str_nat n =
     (if n < 10 then [''0123456789'' ! n]
      else str_nat (n div 10) @ [''0123456789'' ! (n mod 10)])"
  by pat_completeness auto
termination
  by (relation "measure id") auto

fun str_edge :: "edge \<Rightarrow> string" where
  "str_edge (Fin n) = str_nat n"
| "str_edge Inf = ''inf''"

fun edge_le :: "edge \<Rightarrow> rat \<Rightarrow> bool" where
  "edge_le (Fin n) x = (of_nat n \<le> x)"
| "edge_le Inf x = False"

fun lt_edge :: "rat \<Rightarrow> edge \<Rightarrow> bool" where
  "lt_edge x (Fin n) = (x < of_nat n)"
| "lt_edge x Inf = True"

definition hist_edges :: "edge list" where
  "hist_edges = [Fin 0, Fin 15, Fin 30, Fin 60, Fin 120, Fin 240, Inf]"

text \<open>
  \<open>np.histogram(session_lengths, bins=hist_edges)\<close>: the bin from \<open>low\<close> to \<open>high\<close>
  counts the values with \<open>low \<le> x < high\<close>; the last bin ends at infinity.
\<close>

definition histogram :: "rat list \<Rightarrow> edge list \<Rightarrow> nat list" where
  "histogram xs edges =
     map (\<lambda>(low, high). length (filter (\<lambda>x. edge_le low x \<and> lt_edge x high) xs))
         (zip (butlast edges) (tl edges))"

definition hist_ranges :: "edge list \<Rightarrow> string list" where
  "hist_ranges edges =
     map (\<lambda>(low, high).
            if high \<noteq> Inf then str_edge low @ ''-'' @ str_edge high @ ''min''
            else str_edge low @ ''min+'')
         (zip (butlast edges) (tl edges))"

datatype stat_value = Number rat | Distribution "(string \<times> nat) list"

text \<open>
  \<open>session_statistics\<close>. The result is the returned dictionary, as the list of its
  keys and values in the order they are written.
\<close>

definition session_statistics ::
  "sort_fn \<Rightarrow> analyzer \<Rightarrow> (error + (string \<times> stat_value) list) \<times> analyzer" where
  "session_statistics sort_values self0 =
     (let self = ensure_sessions sort_values self0 in
      case sessions self of
        None \<Rightarrow> (Inl (AttributeError ''sessions''), self)
      | Some ss \<Rightarrow>
          if ss = [] then
            (Inr [(''total_sessions'', Number 0),
                  (''avg_session_length'', Number 0),
                  (''median_session_length'', Number 0),
                  (''avg_tracks_per_session'', Number 0),
                  (''avg_artists_per_session'', Number 0)], self)
          else
            (case session_lengths ss of
               Inl err \<Rightarrow> (Inl err, self)
             | Inr lens \<Rightarrow>
                 let tracks_per_session = map (\<lambda>s. of_nat (length s)) ss;
                     artists_per_session = map (\<lambda>s. of_nat (nunique (map artistName s))) ss;
                     hist_counts = histogram lens hist_edges;
                     length_distribution = zip (hist_ranges hist_edges) hist_counts
                 in (Inr [(''total_sessions'', Number (of_nat (length ss))),
                          (''avg_session_length'', Number (mean lens)),
                          (''median_session_length'', Number (median lens)),
                          (''avg_tracks_per_session'', Number (mean tracks_per_session)),
                          (''avg_artists_per_session'', Number (mean artists_per_session)),
                          (''session_length_distribution'', Distribution length_distribution),
                          (''longest_session_minutes'',
                             Number (if lens \<noteq> [] then Max (set lens) else 0)),
                          (''shortest_session_minutes'',
                             Number (if lens \<noteq> [] then Min (set lens) else 0))], self)))"

section \<open>Session patterns\<close>

text \<open>
  The calendar reading of a timestamp (seconds since 1970-01-01 00:00, a Thursday, in
  the proleptic Gregorian calendar): \<open>Timestamp.hour\<close>, \<open>strftime('%A')\<close> and
  \<open>strftime('%B')\<close>, with the English names of the default locale.
\<close>

definition timestamp_hour :: "rat \<Rightarrow> nat" where
  "timestamp_hour t = nat ((\<lfloor>t\<rfloor> mod 86400) div 3600)"

definition timestamp_days :: "rat \<Rightarrow> int" where
  "timestamp_days t = \<lfloor>t\<rfloor> div 86400"

definition all_weekdays :: "string list" where
  "all_weekdays = [''Monday'', ''Tuesday'', ''Wednesday'', ''Thursday'', ''Friday'',
                   ''Saturday'', ''Sunday'']"

definition all_months :: "string list" where
  "all_months = [''January'', ''February'', ''March'', ''April'', ''May'', ''June'',
                 ''July'', ''August'', ''September'', ''October'', ''November'', ''December'']"

definition strftime_A :: "rat \<Rightarrow> string" where
  "strftime_A t = all_weekdays ! nat ((timestamp_days t + 3) mod 7)"

definition month_of_days :: "int \<Rightarrow> nat" where
  "month_of_days d =
     (let z = d + 719468;
          doe = z mod 146097;
          yoe = (doe - doe div 1460 + doe div 36524 - doe div 146096) div 365;
          doy = doe - (365 * yoe + yoe div 4 - yoe div 100);
          mp = (5 * doy + 2) div 153
      in nat (if mp < 10 then mp + 3 else mp - 9))"

definition strftime_B :: "rat \<Rightarrow> string" where
  "strftime_B t = all_months ! (month_of_days (timestamp_days t) - 1)"

text \<open>
  The start of a session as \<open>session_patterns\<close> computes it:
  \<open>session['endTime'].min() - pd.Timedelta(minutes=session.iloc[0]['minutes_played'])\<close>.
\<close>

definition session_start_time :: "session \<Rightarrow> error + rat" where
  "session_start_time session =
     (case session of
        [] \<Rightarrow> Inl IndexError
      | e # _ \<Rightarrow>
          Inr (Min (set (map endTime session)) - Timedelta_minutes (minutes_played e)))"

fun session_start_times :: "session list \<Rightarrow> error + rat list" where
  "session_start_times [] = Inr []"
| "session_start_times (s # ss) =
     (case session_start_time s of
        Inl err \<Rightarrow> Inl err
      | Inr t \<Rightarrow> (case session_start_times ss of Inl err \<Rightarrow> Inl err | Inr ts \<Rightarrow> Inr (t # ts)))"

record patterns =
  by_hour :: "(nat \<times> nat) list"
  by_weekday :: "(string \<times> nat) list"
  by_month :: "(string \<times> nat) list"

text \<open>
  \<open>session_patterns\<close>. \<open>Counter(xs).get(k, 0)\<close> is the number of occurrences of
  \<open>k\<close> in \<open>xs\<close>; each dictionary comprehension lists its keys in order.
\<close>

definition session_patterns :: "sort_fn \<Rightarrow> analyzer \<Rightarrow> (error + patterns) \<times> analyzer" where
  "session_patterns sort_values self0 =
     (let self = ensure_sessions sort_values self0 in
      case sessions self of
        None \<Rightarrow> (Inl (AttributeError ''sessions''), self)
      | Some ss \<Rightarrow>
          if ss = [] then (Inr \<lparr>by_hour = [], by_weekday = [], by_month = []\<rparr>, self)
          else
            (case session_start_times ss of
               Inl err \<Rightarrow> (Inl err, self)
             | Inr starts \<Rightarrow>
                 let session_starts = map timestamp_hour starts;
                     session_weekdays = map strftime_A starts;
                     session_months = map strftime_B starts
                 in (Inr \<lparr>by_hour = map (\<lambda>h. (h, count_list session_starts h)) [0..<24],
                           by_weekday = map (\<lambda>d. (d, count_list session_weekdays d)) all_weekdays,
                           by_month = map (\<lambda>m. (m, count_list session_months m)) all_months\<rparr>,
                     self)))"

section \<open>Session content\<close>

text \<open>
  The number of positions \<open>i\<close> in \<open>range(len(session) - 1)\<close> whose artist equals the
  next one, and the two per-session ratios.
\<close>

definition same_artist_count :: "session \<Rightarrow> nat" where
  "same_artist_count session =
     length (filter (\<lambda>(a, b). a = b)
               (zip (map artistName session) (tl (map artistName session))))"

definition continuity :: "session \<Rightarrow> rat" where
  "continuity session = of_nat (same_artist_count session) / of_nat (length session - 1)"

definition unique_ratio :: "session \<Rightarrow> rat" where
  "unique_ratio session = of_nat (nunique (map artistName session)) / of_nat (length session)"

text \<open>The \<open>if\<close>/\<open>elif\<close> chain that classifies one session.\<close>

definition session_type :: "session \<Rightarrow> string" where
  "session_type session =
     (if length session > 1 \<and> nunique (map artistName session) = 1 then ''single_artist''
      else if length session > 3 \<and> nunique (map artistName session) \<le> 2 then ''album_listening''
      else if length session > 1 \<and>
              (of_nat (nunique (map artistName session)) :: rat) / of_nat (length session) > 8 / 10
        then ''variety''
      else ''mixed'')"

text \<open>\<open>Counter(xs)\<close> as a dictionary.\<close>

definition Counter :: "'a list \<Rightarrow> ('a \<rightharpoonup> nat)" where
  "Counter xs = (\<lambda>k. if k \<in> set xs then Some (count_list xs k) else None)"

record content =
  avg_artist_continuity :: rat
  avg_unique_artists_ratio :: rat
  session_types :: "string \<rightharpoonup> nat"

definition session_content_analysis ::
  "sort_fn \<Rightarrow> analyzer \<Rightarrow> (error + content) \<times> analyzer" where
  "session_content_analysis sort_values self0 =
     (let self = ensure_sessions sort_values self0 in
      case sessions self of
        None \<Rightarrow> (Inl (AttributeError ''sessions''), self)
      | Some ss \<Rightarrow>
          if ss = [] then
            (Inr \<lparr>avg_artist_continuity = 0, avg_unique_artists_ratio = 0,
                  session_types = Counter []\<rparr>, self)
          else
            let long = filter (\<lambda>s. length s > 1) ss;
                artist_continuity = map continuity long;
                unique_artists_ratio = map unique_ratio long;
                types = map session_type ss
            in (Inr \<lparr>avg_artist_continuity =
                       (if artist_continuity \<noteq> [] then mean artist_continuity else 0),
                     avg_unique_artists_ratio =
                       (if unique_artists_ratio \<noteq> [] then mean unique_artists_ratio else 0),
                     session_types = Counter types\<rparr>, self))"

section \<open>Listening contexts\<close>

text \<open>
  The columns of a row that \<open>determine_context\<close> reads. A value of \<open>energy\<close> or
  \<open>tempo\<close> that is missing in a present column (\<open>NaN\<close>) is \<open>None\<close>; every
  comparison with it is false, as in the source.
\<close>

record play_row =
  hour :: int
  weekday :: int
  energy :: "rat option"
  tempo :: "rat option"

definition gt :: "rat option \<Rightarrow> rat \<Rightarrow> bool" where
  "gt x c = (case x of None \<Rightarrow> False | Some v \<Rightarrow> v > c)"

definition lt :: "rat option \<Rightarrow> rat \<Rightarrow> bool" where
  "lt x c = (case x of None \<Rightarrow> False | Some v \<Rightarrow> v < c)"

text \<open>\<open>all(col in self.df.columns for col in ['energy', 'tempo'])\<close>.\<close>

definition has_audio_features :: "string list \<Rightarrow> bool" where
  "has_audio_features columns = list_all (\<lambda>col. col \<in> set columns) [''energy'', ''tempo'']"

definition determine_context :: "bool \<Rightarrow> play_row \<Rightarrow> string" where
  "determine_context has_audio row =
     (let e = (if has_audio then energy row else Some (5 / 10));
          t = (if has_audio then tempo row else Some 120)
      in
      if has_audio \<and> gt e (7 / 10) \<and> gt t 120 \<and>
         ((5 \<le> hour row \<and> hour row \<le> 9) \<or> (17 \<le> hour row \<and> hour row \<le> 20))
        then ''workout''
      else if weekday row < 5 \<and>
              ((7 \<le> hour row \<and> hour row \<le> 9) \<or> (16 \<le> hour row \<and> hour row \<le> 19))
        then ''commute''
      else if weekday row < 5 \<and> 9 \<le> hour row \<and> hour row \<le> 17 \<and>
              (\<not> has_audio \<or> lt e (7 / 10))
        then ''work''
      else if weekday row \<ge> 5 \<and> hour row \<ge> 20 \<and> (\<not> has_audio \<or> gt e (7 / 10))
        then ''party''
      else if hour row \<ge> 20 \<and> (\<not> has_audio \<or> lt e (5 / 10))
        then ''relaxation''
      else ''other'')"

text \<open>\<open>self.df.apply(determine_context, axis=1)\<close>: one label for each row.\<close>

definition categorize_listening_contexts :: "string list \<Rightarrow> play_row list \<Rightarrow> string list" where
  "categorize_listening_contexts columns rows =
     map (determine_context (has_audio_features columns)) rows"

section \<open>Context prediction\<close>

text \<open>
  A trained predictor: the fitted classifier, as the function from a feature vector to
  the label that \<open>context_model.predict([features])[0]\<close> computes, and the feature names
  saved at training time.
\<close>

record 'v predictor =
  context_model :: "'v list \<Rightarrow> string"
  context_features :: "string list"

text \<open>The loop of \<open>predict_context\<close> over \<open>self.context_features\<close>.\<close>

fun prepare_features :: "string list \<Rightarrow> (string \<rightharpoonup> 'v) \<Rightarrow> 'v list \<Rightarrow> error + 'v list" where
  "prepare_features [] kwargs features = Inr features"
| "prepare_features (feature # rest) kwargs features =
     (case kwargs feature of
        Some v \<Rightarrow> prepare_features rest kwargs (features @ [v])
      | None \<Rightarrow> Inl (ValueError (''Missing required feature: '' @ feature)))"

text \<open>\<open>predict_context\<close> on an object whose \<open>context_model\<close> exists.\<close>

definition predict_context :: "'v predictor \<Rightarrow> (string \<rightharpoonup> 'v) \<Rightarrow> error + string" where
  "predict_context self kwargs =
     (case prepare_features (context_features self) kwargs [] of
        Inl err \<Rightarrow> Inl err
      | Inr features \<Rightarrow> Inr (context_model self features))"

section \<open>The specification's wording\<close>

text \<open>
  The definitions of this section follow the specification, not the source; the
  theorems compare them with the functions above.
\<close>

text \<open>The gap in minutes between two consecutive rows of the sorted table.\<close>

definition gap_minutes :: "event \<Rightarrow> event \<Rightarrow> rat" where
  "gap_minutes prev e = (endTime e - endTime prev) / 60"

text \<open>
  The segmenter as one scan: the first event opens a session, and each later event
  opens a new one exactly when its gap to the event before exceeds the threshold.
\<close>

fun spec_scan_sessions :: "rat \<Rightarrow> event list \<Rightarrow> session list" where
  "spec_scan_sessions thr [] = []"
| "spec_scan_sessions thr [e] = [[e]]"
| "spec_scan_sessions thr (e # e' # es) =
     (if gap_minutes e e' > thr then [e] # spec_scan_sessions thr (e' # es)
      else (case spec_scan_sessions thr (e' # es) of
              [] \<Rightarrow> [[e]]
            | s # ss \<Rightarrow> (e # s) # ss))"


text \<open>The session types in priority order, each with its condition on the number of
  events \<open>n\<close> and the number of distinct artists \<open>u\<close>; the first match wins.\<close>

definition spec_type_rules :: "(string \<times> (nat \<Rightarrow> nat \<Rightarrow> bool)) list" where
  "spec_type_rules =
     [(''single_artist'', \<lambda>n u. n > 1 \<and> u = 1),
      (''album_listening'', \<lambda>n u. n > 3 \<and> u \<le> 2),
      (''variety'', \<lambda>n u. n > 1 \<and> (of_nat u :: rat) / of_nat n > 8 / 10)]"

definition spec_session_type :: "nat \<Rightarrow> nat \<Rightarrow> string" where
  "spec_session_type n u =
     (case find (\<lambda>(label, rule). rule n u) spec_type_rules of
        Some (label, rule) \<Rightarrow> label
      | None \<Rightarrow> ''mixed'')"

text \<open>The context rules in priority order; the first match wins, and no match is
  \<open>other\<close>. Hour windows are closed intervals.\<close>

definition spec_context_rules :: "bool \<Rightarrow> (string \<times> (play_row \<Rightarrow> bool)) list" where
  "spec_context_rules present =
     [(''workout'', \<lambda>r. present \<and> gt (energy r) (7 / 10) \<and> gt (tempo r) 120 \<and>
                      (hour r \<in> {5..9} \<or> hour r \<in> {17..20})),
      (''commute'', \<lambda>r. weekday r < 5 \<and> (hour r \<in> {7..9} \<or> hour r \<in> {16..19})),
      (''work'', \<lambda>r. weekday r < 5 \<and> hour r \<in> {9..17} \<and>
                   (\<not> present \<or> lt (energy r) (7 / 10))),
      (''party'', \<lambda>r. weekday r \<ge> 5 \<and> hour r \<ge> 20 \<and>
                    (\<not> present \<or> gt (energy r) (7 / 10))),
      (''relaxation'', \<lambda>r. hour r \<ge> 20 \<and> (\<not> present \<or> lt (energy r) (5 / 10)))]"

definition spec_classify :: "bool \<Rightarrow> play_row \<Rightarrow> string" where
  "spec_classify present r =
     (case find (\<lambda>(label, rule). rule r) (spec_context_rules present) of
        Some (label, rule) \<Rightarrow> label
      | None \<Rightarrow> ''other'')"

section \<open>Auxiliary definitions\<close>


text \<open>
  The session ids of a non-empty sorted table, written as a recursion: the id of the
  first row and a step of one at each gap above the threshold.
\<close>

fun run_ids :: "rat \<Rightarrow> int \<Rightarrow> event \<Rightarrow> event list \<Rightarrow> int list" where
  "run_ids thr acc e [] = [acc]"
| "run_ids thr acc e (e' # es) =
     acc # run_ids thr (acc + (if gap_minutes e e' > thr then 1 else 0)) e' es"

definition session_ids :: "rat \<Rightarrow> event list \<Rightarrow> int list" where
  "session_ids thr es =
     map (\<lambda>c. c - 1) (cumsum (new_session thr (time_diff_minutes (diff (map endTime es)))))"

text \<open>Two sorts that meet the contract of \<open>sort_values\<close>: the stable one, and one
  that returns rows of equal \<open>endTime\<close> in the reverse of their original order.\<close>

definition stable_sort_values :: sort_fn where
  "stable_sort_values rows = sort_key endTime rows"

definition reversing_sort_values :: sort_fn where
  "reversing_sort_values rows = sort_key endTime (rev rows)"

section \<open>Tables for the examples\<close>

text \<open>
  The eight plays of \<open>TestListeningSessionAnalysis.setUp\<close>: 2022-01-01 10:00, 10:04,
  10:08, 14:00, 14:05 and 2022-01-02 09:00, 09:05, 09:10.
\<close>

definition test_events :: "event list" where
  "test_events =
     [\<lparr>endTime = 1641031200, artistName = ''Artist A'', trackName = ''Track 1'',
        minutes_played = 240000 / 60000\<rparr>,
      \<lparr>endTime = 1641031440, artistName = ''Artist A'', trackName = ''Track 2'',
        minutes_played = 180000 / 60000\<rparr>,
      \<lparr>endTime = 1641031680, artistName = ''Artist B'', trackName = ''Track 3'',
        minutes_played = 210000 / 60000\<rparr>,
      \<lparr>endTime = 1641045600, artistName = ''Artist C'', trackName = ''Track 4'',
        minutes_played = 195000 / 60000\<rparr>,
      \<lparr>endTime = 1641045900, artistName = ''Artist C'', trackName = ''Track 5'',
        minutes_played = 225000 / 60000\<rparr>,
      \<lparr>endTime = 1641114000, artistName = ''Artist D'', trackName = ''Track 6'',
        minutes_played = 230000 / 60000\<rparr>,
      \<lparr>endTime = 1641114300, artistName = ''Artist E'', trackName = ''Track 7'',
        minutes_played = 210000 / 60000\<rparr>,
      \<lparr>endTime = 1641114600, artistName = ''Artist D'', trackName = ''Track 8'',
        minutes_played = 180000 / 60000\<rparr>]"

definition test_analyzer :: analyzer where
  "test_analyzer = \<lparr>df = test_events, sessions = None\<rparr>"


definition test_predictor :: "rat predictor" where
  "test_predictor =
     \<lparr>context_model = (\<lambda>features. if features = [7, 0] then ''workout'' else ''other''),
      context_features = [''hour'', ''weekday'']\<rparr>"

section \<open>Grouping a table whose keys ascend\<close>

text \<open>
  When the keys are in ascending order, \<open>groupby\<close> cuts the table into its runs of
  equal keys: a row either joins the group of the next row or starts a group of its own.
\<close>

lemma remdups_sorted_hd:
  fixes j :: int
  assumes "sorted (j # ids)"
  shows "\<exists>ks. remdups (j # ids) = j # ks \<and> j \<notin> set ks"
proof -
  have s: "sorted (remdups (j # ids))" using assms by (rule sorted_remdups)
  have d: "distinct (remdups (j # ids))" by simp
  have ne: "remdups (j # ids) \<noteq> []" by (metis list.distinct(1) remdups_eq_nil_iff)
  then obtain h ks where hk: "remdups (j # ids) = h # ks" by (cases "remdups (j # ids)") auto
  have "h \<in> set (j # ids)" by (metis hk list.set_intros(1) set_remdups)
  then have 1: "j \<le> h" using assms by auto
  have "j \<in> set (h # ks)" by (metis hk list.set_intros(1) set_remdups)
  then have 2: "h \<le> j" using s hk by auto
  from 1 2 have "h = j" by simp
  moreover have "h \<notin> set ks" using d hk by simp
  ultimately show ?thesis using hk by auto
qed

lemma get_group_Cons:
  "get_group k ((i, r) # zs) = (if i = k then r # get_group k zs else get_group k zs)"
  by (simp add: get_group_def)

lemma get_group_absent: "k \<notin> fst ` set zs \<Longrightarrow> get_group k zs = []"
  by (auto simp: get_group_def filter_empty_conv)

lemma sort_remdups_sorted:
  fixes ids :: "int list"
  shows "sorted ids \<Longrightarrow> sort (remdups ids) = remdups ids"
  by (intro sorted_sort_id sorted_remdups)

lemma groupby_single: "groupby [i] [r] = [[r]]"
  by (simp add: groupby_def get_group_def)

lemma groupby_Cons_same:
  assumes "sorted (i # ids)"
  shows "groupby (i # i # ids) (r # r' # rows) =
         (case groupby (i # ids) (r' # rows) of [] \<Rightarrow> [[r]] | s # ss \<Rightarrow> (r # s) # ss)"
proof -
  obtain ks where ks: "remdups (i # ids) = i # ks" "i \<notin> set ks"
    using remdups_sorted_hd[OF assms] by blast
  have srt: "sort (remdups (i # ids)) = i # ks"
    using sort_remdups_sorted[OF assms] ks(1) by simp
  have r2: "remdups (i # i # ids) = remdups (i # ids)" by simp
  let ?zs = "zip (i # ids) (r' # rows)"
  have z: "zip (i # i # ids) (r # r' # rows) = (i, r) # ?zs" by simp
  have m: "map (\<lambda>k. get_group k ((i, r) # ?zs)) ks = map (\<lambda>k. get_group k ?zs) ks"
    using ks(2) by (intro map_cong) (auto simp: get_group_Cons)
  have a: "groupby (i # i # ids) (r # r' # rows) = (r # get_group i ?zs) # map (\<lambda>k. get_group k ?zs) ks"
    unfolding groupby_def r2 srt z using m by (simp add: get_group_Cons)
  have b: "groupby (i # ids) (r' # rows) = get_group i ?zs # map (\<lambda>k. get_group k ?zs) ks"
    unfolding groupby_def srt by simp
  show ?thesis unfolding a b by simp
qed

lemma groupby_Cons_new:
  assumes "sorted (i # j # ids)" "j \<noteq> i"
  shows "groupby (i # j # ids) (r # r' # rows) = [r] # groupby (j # ids) (r' # rows)"
proof -
  define zs where "zs = zip (j # ids) (r' # rows)"
  define ks where "ks = remdups (j # ids)"
  have ni: "i \<notin> set (j # ids)" using assms by auto
  have s1: "sort (remdups (i # j # ids)) = remdups (i # j # ids)"
    using assms(1) by (rule sort_remdups_sorted)
  have "sorted (j # ids)" using assms(1) by simp
  then have s2: "sort (remdups (j # ids)) = ks"
    unfolding ks_def by (rule sort_remdups_sorted)
  have r2: "remdups (i # j # ids) = i # ks" using ni unfolding ks_def by simp
  have z: "zip (i # j # ids) (r # r' # rows) = (i, r) # zs" unfolding zs_def by simp
  have "i \<notin> fst ` set zs" using ni unfolding zs_def by (auto dest: set_zip_leftD)
  then have e: "get_group i zs = []" by (rule get_group_absent)
  have m: "map (\<lambda>k. get_group k ((i, r) # zs)) ks = map (\<lambda>k. get_group k zs) ks"
  proof (intro map_cong refl)
    fix k assume "k \<in> set ks"
    then have "k \<in> set (j # ids)" unfolding ks_def set_remdups .
    then have "k \<noteq> i" using ni by blast
    then show "get_group k ((i, r) # zs) = get_group k zs" by (simp add: get_group_Cons)
  qed
  have s3: "sort (remdups (i # j # ids)) = i # ks" using s1 r2 by simp
  have a: "groupby (i # j # ids) (r # r' # rows) = map (\<lambda>k. get_group k ((i, r) # zs)) (i # ks)"
    unfolding groupby_def s3 z ..
  have b: "groupby (j # ids) (r' # rows) = map (\<lambda>k. get_group k zs) ks"
    unfolding groupby_def s2 zs_def ..
  show ?thesis unfolding a b using m e by (simp add: get_group_Cons)
qed

section \<open>The session ids and the scan\<close>

text \<open>
  The ids that \<open>detect_sessions\<close> computes with \<open>diff\<close>, \<open>cumsum\<close> and the
  subtraction of one are those of \<open>run_ids\<close>; they ascend, so that grouping by them is
  the scan of the specification.
\<close>

lemma run_ids_length: "length (run_ids thr acc e es) = Suc (length es)"
  by (induction es arbitrary: acc e) auto

lemma run_ids_hd: "\<exists>ids. run_ids thr acc e es = acc # ids \<and> length ids = length es"
proof -
  have "run_ids thr acc e es = acc # tl (run_ids thr acc e es)" by (cases es) simp_all
  moreover have "length (tl (run_ids thr acc e es)) = length es" by (simp add: run_ids_length)
  ultimately show ?thesis by blast
qed

lemma run_ids_ge: "k \<in> set (run_ids thr acc e es) \<Longrightarrow> acc \<le> k"
proof (induction es arbitrary: acc e)
  case Nil then show ?case by simp
next
  case (Cons e' es)
  then show ?case by (fastforce split: if_splits)
qed

lemma run_ids_sorted: "sorted (run_ids thr acc e es)"
proof (induction es arbitrary: acc e)
  case Nil then show ?case by simp
next
  case (Cons e' es)
  have "\<forall>k \<in> set (run_ids thr (acc + (if gap_minutes e e' > thr then 1 else 0)) e' es). acc \<le> k"
    by (auto dest!: run_ids_ge split: if_splits)
  then show ?case using Cons.IH by simp
qed

lemma cumsum_run_ids:
  "acc # cumsum_from acc (new_session thr (time_diff_minutes
      (map (\<lambda>(a, b). Some (b - a)) (zip (map endTime (e # es)) (map endTime es)))))
   = run_ids thr acc e es"
proof (induction es arbitrary: acc e)
  case Nil then show ?case by (simp add: new_session_def time_diff_minutes_def)
next
  case (Cons e' es)
  have "cumsum_from (acc + (if gap_minutes e e' > thr then 1 else 0)) (new_session thr (time_diff_minutes
      (map (\<lambda>(a, b). Some (b - a)) (zip (map endTime (e' # es)) (map endTime es)))))
     = tl (run_ids thr (acc + (if gap_minutes e e' > thr then 1 else 0)) e' es)"
    using Cons.IH[of "acc + (if gap_minutes e e' > thr then 1 else 0)" e'] by (metis list.sel(3))
  then show ?case
    using run_ids_hd[of thr "acc + (if gap_minutes e e' > thr then 1 else 0)" e' es]
    by (auto simp: new_session_def time_diff_minutes_def gap_minutes_def Let_def)
qed

lemma cumsum_from_shift: "map (\<lambda>c. c - 1) (cumsum_from (acc + 1) bs) = cumsum_from acc bs"
proof (induction bs arbitrary: acc)
  case Nil then show ?case by simp
next
  case (Cons b bs)
  show ?case using Cons.IH[of "acc + 1"] Cons.IH[of acc] by (simp add: Let_def)
qed

lemma session_ids_run: "session_ids thr (e # es) = run_ids thr 0 e es"
proof -
  let ?fl = "new_session thr (time_diff_minutes
      (map (\<lambda>(a, b). Some (b - a)) (zip (map endTime (e # es)) (map endTime es))))"
  have "session_ids thr (e # es) = map (\<lambda>c. c - 1) (1 # cumsum_from (0 + 1) ?fl)"
    by (simp add: session_ids_def cumsum_def new_session_def time_diff_minutes_def)
  also have "\<dots> = 0 # cumsum_from 0 ?fl"
    unfolding list.map cumsum_from_shift by simp
  also have "\<dots> = run_ids thr 0 e es" by (rule cumsum_run_ids)
  finally show ?thesis .
qed

lemma spec_scan_nonempty: "spec_scan_sessions thr (e # es) \<noteq> []"
  by (induction thr "e # es" arbitrary: e es rule: spec_scan_sessions.induct)
     (auto split: list.splits)

lemma groupby_run_ids: "groupby (run_ids thr acc e es) (e # es) = spec_scan_sessions thr (e # es)"
proof (induction es arbitrary: acc e)
  case Nil then show ?case by (simp add: groupby_single)
next
  case (Cons e' es)
  let ?acc' = "acc + (if gap_minutes e e' > thr then 1 else 0)"
  obtain ids where ids: "run_ids thr ?acc' e' es = ?acc' # ids"
    using run_ids_hd by blast
  have srt: "sorted (acc # ?acc' # ids)"
    using run_ids_sorted[of thr acc e "e' # es"] ids by simp
  have IH: "groupby (?acc' # ids) (e' # es) = spec_scan_sessions thr (e' # es)"
    using Cons.IH[of ?acc' e'] ids by simp
  show ?case
  proof (cases "gap_minutes e e' > thr")
    case True
    then have "groupby (acc # ?acc' # ids) (e # e' # es) = [e] # groupby (?acc' # ids) (e' # es)"
      using srt by (intro groupby_Cons_new) auto
    then show ?thesis using True ids IH by simp
  next
    case False
    then have eq: "?acc' = acc" by simp
    have "sorted (acc # ids)" using srt by simp
    then have "groupby (acc # acc # ids) (e # e' # es) =
       (case groupby (acc # ids) (e' # es) of [] \<Rightarrow> [[e]] | s # ss \<Rightarrow> (e # s) # ss)"
      by (rule groupby_Cons_same)
    then show ?thesis using False ids IH eq by simp
  qed
qed

lemma groupby_session_ids:
  "groupby (session_ids thr es) es = spec_scan_sessions thr es"
proof (cases es)
  case Nil then show ?thesis by (simp add: groupby_def session_ids_def cumsum_def new_session_def time_diff_minutes_def)
next
  case (Cons e es') then show ?thesis by (simp add: session_ids_run groupby_run_ids)
qed

section \<open>Properties of the scan\<close>

lemma spec_scan_concat: "concat (spec_scan_sessions thr es) = es"
proof (induction thr es rule: spec_scan_sessions.induct)
  case (1 thr) then show ?case by simp
next
  case (2 thr e) then show ?case by simp
next
  case (3 thr e e' es)
  then have "concat (spec_scan_sessions thr (e' # es)) = e' # es" by blast
  then show ?case using spec_scan_nonempty[of thr e' es] by (auto split: list.splits)
qed

lemma spec_scan_no_empty: "[] \<notin> set (spec_scan_sessions thr es)"
proof (induction thr es rule: spec_scan_sessions.induct)
  case (1 thr) then show ?case by simp
next
  case (2 thr e) then show ?case by simp
next
  case (3 thr e e' es)
  then have "[] \<notin> set (spec_scan_sessions thr (e' # es))" by blast
  then show ?case by (auto split: list.splits)
qed

lemma spec_scan_length_mono:
  "t1 \<le> t2 \<Longrightarrow> length (spec_scan_sessions t2 es) \<le> length (spec_scan_sessions t1 es)"
proof (induction t1 es rule: spec_scan_sessions.induct)
  case (1 thr) then show ?case by simp
next
  case (2 thr e) then show ?case by simp
next
  case (3 thr e e' es)
  obtain s ss where a: "spec_scan_sessions thr (e' # es) = s # ss"
    using spec_scan_nonempty by (cases "spec_scan_sessions thr (e' # es)") auto
  obtain s2 ss2 where b: "spec_scan_sessions t2 (e' # es) = s2 # ss2"
    using spec_scan_nonempty by (cases "spec_scan_sessions t2 (e' # es)") auto
  have IH: "length (s2 # ss2) \<le> length (s # ss)"
    using 3 a b by (auto split: if_splits)
  show ?case using 3(3) IH a b by auto
qed


lemma sorted_wrt_concat_iff:
  "sorted_wrt P (concat xss) \<longleftrightarrow>
   (\<forall>xs \<in> set xss. sorted_wrt P xs) \<and>
   sorted_wrt (\<lambda>xs ys. \<forall>x \<in> set xs. \<forall>y \<in> set ys. P x y) xss"
  by (induction xss) (auto simp: sorted_wrt_append)

section \<open>Sessions returned by \<open>detect_sessions\<close>\<close>

lemma detect_sessions_scan:
  "fst (detect_sessions sort_values thr self) =
   (if df self = [] then [] else spec_scan_sessions thr (sort_values (df self)))"
  using groupby_session_ids[of thr "sort_values (df self)"]
  by (simp add: detect_sessions_def Let_def session_ids_def)

lemma detect_sessions_concat:
  "df self \<noteq> [] \<Longrightarrow> concat (fst (detect_sessions sort_values thr self)) = sort_values (df self)"
  by (simp add: detect_sessions_scan spec_scan_concat)

lemma detect_sessions_no_empty: "[] \<notin> set (fst (detect_sessions sort_values thr self))"
  by (simp add: detect_sessions_scan spec_scan_no_empty)

lemma detect_sessions_stored:
  "df self \<noteq> [] \<Longrightarrow>
   snd (detect_sessions sort_values thr self)
     = self\<lparr>sessions := Some (fst (detect_sessions sort_values thr self))\<rparr>"
  by (simp add: detect_sessions_def Let_def)

lemma detect_sessions_nonempty:
  assumes "mset (sort_values (df self)) = mset (df self)" "df self \<noteq> []"
  shows "fst (detect_sessions sort_values thr self) \<noteq> []"
proof -
  have "sort_values (df self) \<noteq> []" using assms by (metis mset_zero_iff)
  then obtain e es where "sort_values (df self) = e # es" by (cases "sort_values (df self)") auto
  then show ?thesis using assms(2) spec_scan_nonempty[of thr e es] by (simp add: detect_sessions_scan)
qed

text \<open>
  Both sorts defined above meet the contract of \<open>sort_values\<close>: the result is a
  permutation of the table in ascending order of \<open>endTime\<close>.
\<close>

lemma stable_sort_values_contract:
  "mset (stable_sort_values rows) = mset rows \<and> sorted (map endTime (stable_sort_values rows))"
  by (simp add: stable_sort_values_def)

lemma reversing_sort_values_contract:
  "mset (reversing_sort_values rows) = mset rows
   \<and> sorted (map endTime (reversing_sort_values rows))"
  by (simp add: reversing_sort_values_def)

lemma sorted_Min_hd:
  fixes xs :: "rat list"
  shows "sorted xs \<Longrightarrow> xs \<noteq> [] \<Longrightarrow> Min (set xs) = hd xs"
  by (cases xs) (auto intro!: Min_eqI)

lemma sorted_Max_last:
  fixes xs :: "rat list"
  shows "sorted xs \<Longrightarrow> xs \<noteq> [] \<Longrightarrow> Max (set xs) = last xs"
proof (induction xs)
  case Nil then show ?case by simp
next
  case (Cons x xs)
  show ?case
  proof (cases "xs = []")
    case True then show ?thesis by simp
  next
    case False
    have "Max (set xs) = last xs" using Cons False by simp
    moreover have "x \<le> last xs" using Cons.prems(1) False by simp
    ultimately show ?thesis using False by (simp add: max_def)
  qed
qed

lemma detect_sessions_member:
  assumes asc: "sorted (map endTime (sort_values (df self)))"
      and mem: "s \<in> set (fst (detect_sessions sort_values thr self))"
  shows "s \<noteq> [] \<and> sorted (map endTime s)"
proof -
  let ?ss = "fst (detect_sessions sort_values thr self)"
  have ne: "df self \<noteq> []" using mem by (auto simp: detect_sessions_scan split: if_splits)
  have c: "concat ?ss = sort_values (df self)" using ne by (rule detect_sessions_concat)
  have "sorted_wrt (\<lambda>a b. endTime a \<le> endTime b) (concat ?ss)"
    using asc unfolding c by (simp add: sorted_map)
  then have "\<forall>s \<in> set ?ss. sorted_wrt (\<lambda>a b. endTime a \<le> endTime b) s"
    unfolding sorted_wrt_concat_iff by blast
  then have "sorted (map endTime s)" using mem by (simp add: sorted_map)
  moreover have "s \<noteq> []" using mem detect_sessions_no_empty[of sort_values thr self] by auto
  ultimately show ?thesis by simp
qed

lemma session_length_sorted:
  assumes "s \<noteq> []" "sorted (map endTime s)"
  shows "session_length s =
         Inr (if length s > 1
              then (endTime (last s) - (endTime (hd s) - 60 * minutes_played (hd s))) / 60
              else minutes_played (hd s))"
proof -
  obtain e es where s: "s = e # es" using assms(1) by (cases s) auto
  have mn: "Min (set (map endTime s)) = endTime (hd s)"
    using sorted_Min_hd[OF assms(2)] assms(1) by (simp add: hd_map)
  have mx: "Max (set (map endTime s)) = endTime (last s)"
    using sorted_Max_last[OF assms(2)] assms(1) by (simp add: last_map)
  show ?thesis
    using mn mx unfolding session_length_def s
    by (simp add: Timedelta_minutes_def Let_def)
qed



text \<open>
  On a table that is not empty, the guard of the three statistics functions stores the
  sessions computed with the default threshold of 30 minutes, and there is at least one.
\<close>

lemma ensure_sessions_computes:
  assumes "mset (sort_values (df self)) = mset (df self)"
      and "df self \<noteq> []"
      and "sessions self = None \<or> sessions self = Some []"
  shows "ensure_sessions sort_values self
           = self\<lparr>sessions := Some (fst (detect_sessions sort_values 30 self))\<rparr>
         \<and> fst (detect_sessions sort_values 30 self) \<noteq> []"
  using assms detect_sessions_nonempty[of sort_values self 30]
  by (auto simp: ensure_sessions_def detect_sessions_stored)

section \<open>The feature loop of \<open>predict_context\<close>\<close>

lemma prepare_features_find:
  "prepare_features fs kwargs acc =
     (case find (\<lambda>f. kwargs f = None) fs of
        Some g \<Rightarrow> Inl (ValueError (''Missing required feature: '' @ g))
      | None \<Rightarrow> Inr (acc @ map (\<lambda>f. the (kwargs f)) fs))"
proof (induction fs arbitrary: acc)
  case Nil then show ?case by simp
next
  case (Cons a fs)
  show ?case
  proof (cases "kwargs a")
    case None then show ?thesis by simp
  next
    case (Some v)
    then show ?thesis using Cons.IH[of "acc @ [v]"] by (simp split: option.splits)
  qed
qed

section \<open>The claims\<close>

subsection \<open>C1: the sessions partition the events\<close>



subsection \<open>C2: where a session starts\<close>




subsection \<open>C3: a larger threshold never gives more sessions\<close>

text \<open>
  Claim C3. For every event table and thresholds \<open>t1 \<le> t2\<close>, \<open>detect_sessions\<close>
  with \<open>t2\<close> returns at most as many sessions as with \<open>t1\<close>.
\<close>

theorem gap_threshold_monotone:
  "t1 \<le> t2 \<Longrightarrow>
   length (fst (detect_sessions sort_values t2 self))
     \<le> length (fst (detect_sessions sort_values t1 self))"
  by (simp add: detect_sessions_scan spec_scan_length_mono)

theorem gap_threshold_monotone_witness:
  "(3::rat) \<le> 30
   \<and> length (fst (detect_sessions stable_sort_values 30 test_analyzer))
       \<le> length (fst (detect_sessions stable_sort_values 3 test_analyzer))
   \<and> length (fst (detect_sessions stable_sort_values 30 test_analyzer)) = 3
   \<and> length (fst (detect_sessions stable_sort_values 3 test_analyzer)) = 8"
proof -
  have h: "(3::rat) \<le> 30" by simp
  have a: "length (fst (detect_sessions stable_sort_values 30 test_analyzer)) = 3" by code_simp
  have b: "length (fst (detect_sessions stable_sort_values 3 test_analyzer)) = 8" by code_simp
  show ?thesis
    using gap_threshold_monotone [OF h, of stable_sort_values test_analyzer] h a b by simp
qed

subsection \<open>C4: the context rules in priority order\<close>

text \<open>
  Claim C4. For every play event, \<open>determine_context\<close> returns the label of the
  first rule that matches in the order workout, commute, work, party, relaxation, and
  \<open>other\<close> when none does; the hour windows include both endpoints; every row of the
  table is labelled this way; and the event with hour 8, weekday 0, energy 0.85, tempo 150
  and audio features present is labelled \<open>workout\<close>.
\<close>

theorem determine_context_priority:
  "determine_context present r = spec_classify present r
   \<and> categorize_listening_contexts columns rows
       = map (spec_classify (has_audio_features columns)) rows
   \<and> determine_context True \<lparr>hour = 8, weekday = 0, energy = Some (85 / 100), tempo = Some 150\<rparr>
       = ''workout''"
proof -
  have a: "determine_context p r' = spec_classify p r'" for p r'
  proof (cases p)
    case True
    then show ?thesis
      by (auto simp: determine_context_def spec_classify_def spec_context_rules_def Let_def)
  next
    case False
    then show ?thesis
      by (simp add: determine_context_def spec_classify_def spec_context_rules_def Let_def)
  qed
  have b: "determine_context True
             \<lparr>hour = 8, weekday = 0, energy = Some (85 / 100), tempo = Some 150\<rparr> = ''workout''"
    by (simp add: determine_context_def gt_def)
  have c: "categorize_listening_contexts columns rows
       = map (spec_classify (has_audio_features columns)) rows"
    unfolding categorize_listening_contexts_def using a by (intro map_cong refl)
  show ?thesis using a b c by blast
qed

theorem determine_context_priority_witness:
  "determine_context True \<lparr>hour = 12, weekday = 0, energy = Some (4 / 10), tempo = Some 100\<rparr>
     = ''work''
   \<and> spec_classify False \<lparr>hour = 21, weekday = 5, energy = None, tempo = None\<rparr> = ''party''
   \<and> determine_context True \<lparr>hour = 5, weekday = 6, energy = Some (8 / 10), tempo = Some 130\<rparr>
     = ''workout''
   \<and> determine_context True \<lparr>hour = 20, weekday = 6, energy = Some (8 / 10), tempo = Some 130\<rparr>
     = ''workout''
   \<and> determine_context False \<lparr>hour = 9, weekday = 4, energy = None, tempo = None\<rparr>
     = ''commute''
   \<and> determine_context False \<lparr>hour = 17, weekday = 0, energy = None, tempo = None\<rparr>
     = ''commute''
   \<and> determine_context False \<lparr>hour = 15, weekday = 0, energy = None, tempo = None\<rparr>
     = ''work''"
proof -
  have a: "spec_classify True \<lparr>hour = 12, weekday = 0, energy = Some (4 / 10), tempo = Some 100\<rparr>
     = ''work''"
    by (simp add: spec_classify_def spec_context_rules_def gt_def lt_def)
  have b: "determine_context False \<lparr>hour = 21, weekday = 5, energy = None, tempo = None\<rparr>
     = ''party''"
    by (simp add: determine_context_def gt_def lt_def)
  have c: "determine_context True \<lparr>hour = 5, weekday = 6, energy = Some (8 / 10), tempo = Some 130\<rparr>
     = ''workout''"
    by (simp add: determine_context_def gt_def lt_def)
  have d: "determine_context True \<lparr>hour = 20, weekday = 6, energy = Some (8 / 10), tempo = Some 130\<rparr>
     = ''workout''"
    by (simp add: determine_context_def gt_def lt_def)
  have e: "determine_context False \<lparr>hour = 9, weekday = 4, energy = None, tempo = None\<rparr>
     = ''commute''"
    by (simp add: determine_context_def gt_def lt_def)
  have f: "determine_context False \<lparr>hour = 17, weekday = 0, energy = None, tempo = None\<rparr>
     = ''commute''"
    by (simp add: determine_context_def gt_def lt_def)
  have g: "determine_context False \<lparr>hour = 15, weekday = 0, energy = None, tempo = None\<rparr>
     = ''work''"
    by (simp add: determine_context_def gt_def lt_def)
  show ?thesis
    using a b c d e f g
      determine_context_priority [of True "\<lparr>hour = 12, weekday = 0, energy = Some (4 / 10), tempo = Some 100\<rparr>"]
      determine_context_priority [of False "\<lparr>hour = 21, weekday = 5, energy = None, tempo = None\<rparr>"]
    by simp
qed

subsection \<open>C5: the type of a session\<close>

text \<open>
  Claim C5. Every session gets exactly one type, the first that matches in the order
  \<open>single_artist\<close> (more than one event, one distinct artist), \<open>album_listening\<close>
  (more than three events, at most two distinct artists), \<open>variety\<close> (more than one
  event, distinct artists over events above 0.8), and \<open>mixed\<close> otherwise; a session
  of one event is \<open>mixed\<close>.
\<close>

theorem session_type_priority:
  "session_type s = spec_session_type (length s) (card (set (map artistName s)))
   \<and> session_type s \<in> {''single_artist'', ''album_listening'', ''variety'', ''mixed''}
   \<and> (length s = 1 \<longrightarrow> session_type s = ''mixed'')"
proof -
  have n: "nunique (map artistName s) = card (set (map artistName s))"
    by (simp add: nunique_def length_remdups_card_conv)
  have a: "session_type s = spec_session_type (length s) (card (set (map artistName s)))"
    unfolding session_type_def n by (simp add: spec_session_type_def spec_type_rules_def)
  have b: "session_type s \<in> {''single_artist'', ''album_listening'', ''variety'', ''mixed''}"
    by (simp add: session_type_def)
  have c: "length s = 1 \<longrightarrow> session_type s = ''mixed''"
    by (simp add: session_type_def)
  show ?thesis using a b c by blast
qed

theorem session_type_priority_witness:
  "length [\<lparr>endTime = 1641031200, artistName = ''Artist A'', trackName = ''Track 1'',
            minutes_played = 4\<rparr>] = 1
   \<and> session_type [\<lparr>endTime = 1641031200, artistName = ''Artist A'', trackName = ''Track 1'',
            minutes_played = 4\<rparr>] = ''mixed''"
proof -
  have h: "length [\<lparr>endTime = 1641031200, artistName = ''Artist A'', trackName = ''Track 1'',
            minutes_played = 4\<rparr>] = 1" by simp
  show ?thesis
    using h session_type_priority [of "[\<lparr>endTime = 1641031200, artistName = ''Artist A'',
            trackName = ''Track 1'', minutes_played = 4\<rparr>]"]
    by blast
qed

subsection \<open>C6: the duration of a session\<close>

text \<open>
  Claim C6. For every session that \<open>detect_sessions\<close> returns, the length that the
  loop of \<open>session_statistics\<close> computes is, for more than one event, the last event's
  end time minus the first event's end time less its own play duration, in minutes, and
  for a single event that event's play duration. Times are in seconds, so the play
  duration in minutes is multiplied by 60 and the difference divided by 60.
\<close>

theorem session_length_duration:
  assumes asc: "sorted (map endTime (sort_values (df self)))"
      and mem: "s \<in> set (fst (detect_sessions sort_values thr self))"
  shows "(length s > 1 \<longrightarrow>
            session_length s =
              Inr ((endTime (last s) - (endTime (hd s) - 60 * minutes_played (hd s))) / 60))
       \<and> (length s = 1 \<longrightarrow> session_length s = Inr (minutes_played (hd s)))
       \<and> length s \<ge> 1"
proof -
  have m: "s \<noteq> [] \<and> sorted (map endTime s)"
    using asc mem by (rule detect_sessions_member)
  then have "length s \<ge> 1" by (cases s) auto
  then show ?thesis using session_length_sorted[of s] m by auto
qed

theorem session_length_duration_witness:
  "sorted (map endTime (stable_sort_values (df test_analyzer)))
   \<and> fst (detect_sessions stable_sort_values 30 test_analyzer) ! 0
        \<in> set (fst (detect_sessions stable_sort_values 30 test_analyzer))
   \<and> length (fst (detect_sessions stable_sort_values 30 test_analyzer) ! 0) > 1
   \<and> session_length (fst (detect_sessions stable_sort_values 30 test_analyzer) ! 0) = Inr 12
   \<and> fst (detect_sessions stable_sort_values 3 test_analyzer) ! 5
        \<in> set (fst (detect_sessions stable_sort_values 3 test_analyzer))
   \<and> length (fst (detect_sessions stable_sort_values 3 test_analyzer) ! 5) = 1
   \<and> session_length (fst (detect_sessions stable_sort_values 3 test_analyzer) ! 5) = Inr (23 / 6)"
proof -
  let ?a = "fst (detect_sessions stable_sort_values 30 test_analyzer)"
  let ?b = "fst (detect_sessions stable_sort_values 3 test_analyzer)"
  have asc: "sorted (map endTime (stable_sort_values (df test_analyzer)))"
    by (simp add: stable_sort_values_def)
  have la: "length ?a = 3" by code_simp
  have lb: "length ?b = 8" by code_simp
  have ma: "?a ! 0 \<in> set ?a" using la by (intro nth_mem) simp
  have mb: "?b ! 5 \<in> set ?b" using lb by (intro nth_mem) simp
  have na: "length (?a ! 0) > 1" by code_simp
  have nb: "length (?b ! 5) = 1" by code_simp
  have va: "(endTime (last (?a ! 0)) - (endTime (hd (?a ! 0)) - 60 * minutes_played (hd (?a ! 0)))) / 60 = 12"
    by code_simp
  have vb: "minutes_played (hd (?b ! 5)) = 23 / 6" by code_simp
  show ?thesis
    using session_length_duration [OF asc ma] session_length_duration [OF asc mb]
      asc ma mb na nb va vb by simp
qed

subsection \<open>C7: statistics over zero sessions\<close>

text \<open>
  Claim C7. With zero sessions \<open>session_statistics\<close> should return, without
  error, a result holding all eight keys of its interface, each zero or empty. The
  source misses this twice. On an empty table \<open>detect_sessions\<close> returns before it
  stores \<open>self.sessions\<close>, so that the test \<open>if not self.sessions\<close> that follows
  the guard raises \<open>AttributeError\<close>. And where an empty list is stored, the early
  return holds five keys only, without \<open>session_length_distribution\<close>,
  \<open>longest_session_minutes\<close> and \<open>shortest_session_minutes\<close>, which the other
  return of the same function holds (there guarded by \<open>if session_lengths else 0\<close>),
  as on the table of the test suite.
\<close>

theorem session_statistics_zero_sessions:
  "session_statistics sort_values \<lparr>df = [], sessions = None\<rparr>
     = (Inl (AttributeError ''sessions''), \<lparr>df = [], sessions = None\<rparr>)
   \<and> session_statistics sort_values \<lparr>df = [], sessions = Some []\<rparr>
     = (Inr [(''total_sessions'', Number 0), (''avg_session_length'', Number 0),
             (''median_session_length'', Number 0), (''avg_tracks_per_session'', Number 0),
             (''avg_artists_per_session'', Number 0)], \<lparr>df = [], sessions = Some []\<rparr>)
   \<and> fst (session_statistics stable_sort_values test_analyzer)
     = Inr [(''total_sessions'', Number 3),
            (''avg_session_length'', Number (409 / 36)),
            (''median_session_length'', Number 12),
            (''avg_tracks_per_session'', Number (8 / 3)),
            (''avg_artists_per_session'', Number (5 / 3)),
            (''session_length_distribution'',
               Distribution [(''0-15min'', 3), (''15-30min'', 0), (''30-60min'', 0),
                             (''60-120min'', 0), (''120-240min'', 0), (''240min+'', 0)]),
            (''longest_session_minutes'', Number (83 / 6)),
            (''shortest_session_minutes'', Number (33 / 4))]"
proof -
  have a: "session_statistics sort_values \<lparr>df = [], sessions = None\<rparr>
     = (Inl (AttributeError ''sessions''), \<lparr>df = [], sessions = None\<rparr>)"
    by (simp add: session_statistics_def ensure_sessions_def detect_sessions_def)
  have b: "session_statistics sort_values \<lparr>df = [], sessions = Some []\<rparr>
     = (Inr [(''total_sessions'', Number 0), (''avg_session_length'', Number 0),
             (''median_session_length'', Number 0), (''avg_tracks_per_session'', Number 0),
             (''avg_artists_per_session'', Number 0)], \<lparr>df = [], sessions = Some []\<rparr>)"
    by (simp add: session_statistics_def ensure_sessions_def detect_sessions_def)
  have c: "fst (session_statistics stable_sort_values test_analyzer)
     = Inr [(''total_sessions'', Number 3),
            (''avg_session_length'', Number (409 / 36)),
            (''median_session_length'', Number 12),
            (''avg_tracks_per_session'', Number (8 / 3)),
            (''avg_artists_per_session'', Number (5 / 3)),
            (''session_length_distribution'',
               Distribution [(''0-15min'', 3), (''15-30min'', 0), (''30-60min'', 0),
                             (''60-120min'', 0), (''120-240min'', 0), (''240min+'', 0)]),
            (''longest_session_minutes'', Number (83 / 6)),
            (''shortest_session_minutes'', Number (33 / 4))]"
    by code_simp
  show ?thesis using a b c by blast
qed

subsection \<open>C8: when sessions start\<close>




subsection \<open>C9: the features given to the predictor\<close>

text \<open>
  Claim C9. For every trained model and every feature map, if the map omits a feature
  name the model was trained with, \<open>predict_context\<close> fails with the error
  \<open>Missing required feature:\<close> followed by the name of the first omitted feature
  in training order, and calls no model; when every trained feature name is supplied, the
  model receives the supplied values in the order of the feature names saved at training
  time.
\<close>

theorem predict_context_features:
  "predict_context self kwargs =
     (case find (\<lambda>f. kwargs f = None) (context_features self) of
        Some g \<Rightarrow> Inl (ValueError (''Missing required feature: '' @ g))
      | None \<Rightarrow> Inr (context_model self (map (\<lambda>f. the (kwargs f)) (context_features self))))
   \<and> ((\<exists>f \<in> set (context_features self). kwargs f = None) \<longrightarrow>
      (\<exists>g \<in> set (context_features self). kwargs g = None \<and>
         predict_context self kwargs = Inl (ValueError (''Missing required feature: '' @ g))))
   \<and> ((\<forall>f \<in> set (context_features self). kwargs f \<noteq> None) \<longrightarrow>
      predict_context self kwargs
        = Inr (context_model self (map (\<lambda>f. the (kwargs f)) (context_features self))))"
proof -
  let ?fs = "context_features self"
  have a: "predict_context self kwargs =
     (case find (\<lambda>f. kwargs f = None) ?fs of
        Some g \<Rightarrow> Inl (ValueError (''Missing required feature: '' @ g))
      | None \<Rightarrow> Inr (context_model self (map (\<lambda>f. the (kwargs f)) ?fs)))"
    by (simp add: predict_context_def prepare_features_find split: option.splits)
  have b: "(\<exists>f \<in> set ?fs. kwargs f = None) \<longrightarrow>
      (\<exists>g \<in> set ?fs. kwargs g = None \<and>
         predict_context self kwargs = Inl (ValueError (''Missing required feature: '' @ g)))"
  proof
    assume "\<exists>f \<in> set ?fs. kwargs f = None"
    then obtain g where g: "find (\<lambda>f. kwargs f = None) ?fs = Some g"
      by (cases "find (\<lambda>f. kwargs f = None) ?fs") (auto simp: find_None_iff)
    then have "g \<in> set ?fs \<and> kwargs g = None"
      by (auto simp: find_Some_iff)
    then show "\<exists>g \<in> set ?fs. kwargs g = None \<and>
         predict_context self kwargs = Inl (ValueError (''Missing required feature: '' @ g))"
      using a g by auto
  qed
  have c: "(\<forall>f \<in> set ?fs. kwargs f \<noteq> None) \<longrightarrow>
      predict_context self kwargs = Inr (context_model self (map (\<lambda>f. the (kwargs f)) ?fs))"
  proof
    assume "\<forall>f \<in> set ?fs. kwargs f \<noteq> None"
    then have "find (\<lambda>f. kwargs f = None) ?fs = None" by (simp add: find_None_iff)
    then show "predict_context self kwargs
                 = Inr (context_model self (map (\<lambda>f. the (kwargs f)) ?fs))"
      using a by simp
  qed
  show ?thesis using a b c by blast
qed

theorem predict_context_features_witness:
  "context_features test_predictor = [''hour'', ''weekday'']
   \<and> [''hour'' \<mapsto> (7::rat)] ''weekday'' = None
   \<and> predict_context test_predictor [''hour'' \<mapsto> 7]
       = Inl (ValueError ''Missing required feature: weekday'')
   \<and> [''weekday'' \<mapsto> 0, ''hour'' \<mapsto> (7::rat)] ''hour'' = Some 7
   \<and> [''weekday'' \<mapsto> 0, ''hour'' \<mapsto> (7::rat)] ''weekday'' = Some 0
   \<and> predict_context test_predictor [''weekday'' \<mapsto> 0, ''hour'' \<mapsto> (7::rat)] = Inr ''workout''"
proof -
  have fs: "context_features test_predictor = [''hour'', ''weekday'']"
    by (simp add: test_predictor_def)
  have h1: "\<exists>f \<in> set (context_features test_predictor). [''hour'' \<mapsto> (7::rat)] f = None"
    by (simp add: fs)
  have h2: "\<forall>f \<in> set (context_features test_predictor).
              [''weekday'' \<mapsto> 0, ''hour'' \<mapsto> (7::rat)] f \<noteq> None"
    by (simp add: fs)
  have "\<exists>g \<in> set (context_features test_predictor). [''hour'' \<mapsto> (7::rat)] g = None \<and>
          predict_context test_predictor [''hour'' \<mapsto> 7]
            = Inl (ValueError (''Missing required feature: '' @ g))"
    using predict_context_features [of test_predictor "[''hour'' \<mapsto> 7]"] h1 by blast
  then have a: "predict_context test_predictor [''hour'' \<mapsto> 7]
       = Inl (ValueError ''Missing required feature: weekday'')"
    by (auto simp: fs split: if_splits)
  have "predict_context test_predictor [''weekday'' \<mapsto> 0, ''hour'' \<mapsto> (7::rat)]
          = Inr (context_model test_predictor
                   (map (\<lambda>f. the ([''weekday'' \<mapsto> 0, ''hour'' \<mapsto> (7::rat)] f))
                        (context_features test_predictor)))"
    using predict_context_features [of test_predictor "[''weekday'' \<mapsto> 0, ''hour'' \<mapsto> 7]"] h2
    by blast
  then have b: "predict_context test_predictor [''weekday'' \<mapsto> 0, ''hour'' \<mapsto> (7::rat)]
                  = Inr ''workout''"
    by (simp add: test_predictor_def)
  show ?thesis using fs a b by simp
qed

subsection \<open>C10: statistics before any session was computed\<close>

text \<open>
  Claim C10 says that \<open>session_statistics\<close>, \<open>session_patterns\<close> and
  \<open>session_content_analysis\<close>, called when no sessions have been computed, first call
  \<open>detect_sessions\<close> with the threshold of 30 minutes rather than failing. On a table
  that is not empty they do (\<open>ensure_sessions_computes\<close>). On an empty table
  \<open>detect_sessions\<close> is called and returns before it stores \<open>self.sessions\<close>, and
  each of the three functions then fails on the missing attribute.
\<close>

theorem empty_table_attribute_error:
  "session_statistics sort_values \<lparr>df = [], sessions = None\<rparr>
     = (Inl (AttributeError ''sessions''), \<lparr>df = [], sessions = None\<rparr>)
   \<and> session_patterns sort_values \<lparr>df = [], sessions = None\<rparr>
     = (Inl (AttributeError ''sessions''), \<lparr>df = [], sessions = None\<rparr>)
   \<and> session_content_analysis sort_values \<lparr>df = [], sessions = None\<rparr>
     = (Inl (AttributeError ''sessions''), \<lparr>df = [], sessions = None\<rparr>)"
  by (simp add: session_statistics_def session_patterns_def session_content_analysis_def
        ensure_sessions_def detect_sessions_def)

end
